theory Spec2Isabelle
  imports Complex_Main
begin

section \<open>Basic Regression Analysis, Example 2: the notebook as functions\<close>

text \<open>
  The repository is one notebook, \<^verbatim>\<open>7_2_Basic_Regression_Analysis_Example_2\<close>. Its code
  cells run top to bottom over global variables. Each cell that takes part in the
  regression pipeline is a function here: its arguments are the globals the cell reads,
  its result the globals it binds and the lines it prints.

  Conventions of the embedding:
  \<^item> a Python float is read as the real number it denotes (\<^typ>\<open>real\<close>); the loader, which
    is the only place where \<^verbatim>\<open>nan\<close> is written by the code itself, has its own value type;
  \<^item> a one-dimensional array or one-column table is a \<^typ>\<open>real list\<close>, a two-dimensional
    array or table body is a list of rows;
  \<^item> a raised exception is \<open>Inl\<close> of an \<open>error\<close>; a cell stops at the first one;
  \<^item> \<^verbatim>\<open>print\<close> appends one line to the cell's output; the formatting of a number
    (\<^verbatim>\<open>str\<close>, \<^verbatim>\<open>"{:.4}".format\<close>) is a parameter of the cell;
  \<^item> the functions of statsmodels and scikit-learn that a cell calls are parameters of the
    cell, collected in one record and each of them allowed to raise; the constant column
    and the three metrics, whose results the properties below depend on, are modelled from
    the specification instead;
  \<^item> plotting calls have no effect on any variable and are left out.
\<close>

type_synonym vec = "real list"
type_synonym mat = "real list list"

text \<open>
  The exceptions of Python that the cells can meet, and \<open>ShapeError\<close>, the name the
  specification gives to the failure of a metric on vectors of unequal length.
\<close>

datatype error = ValueError | KeyError | ZeroDivisionError | ShapeError

subsection \<open>Tables\<close>

text \<open>
  A pandas table: the column names and the rows, each row with its index label. The index
  of the data set is the year; a label is modelled as the year number it spells.
\<close>

record 'a frame =
  columns :: "string list"
  rows :: "(int \<times> 'a list) list"

definition keep_columns :: "(string \<Rightarrow> bool) \<Rightarrow> 'a frame \<Rightarrow> 'a frame" where
  "keep_columns P df =
     \<lparr>columns = filter P (columns df),
      rows = map (\<lambda>(label, row). (label, map snd (filter (\<lambda>(c, v). P c) (zip (columns df) row))))
               (rows df)\<rparr>"

text \<open>\<^verbatim>\<open>df.drop(names, axis = 1)\<close>: a name that is no column raises \<^verbatim>\<open>KeyError\<close>.\<close>

definition drop_columns :: "string list \<Rightarrow> 'a frame \<Rightarrow> error + 'a frame" where
  "drop_columns names df =
     (if list_all (\<lambda>n. n \<in> set (columns df)) names
      then Inr (keep_columns (\<lambda>c. c \<notin> set names) df)
      else Inl KeyError)"

text \<open>\<^verbatim>\<open>df[[name]]\<close>: the table of that one column.\<close>

definition getitem :: "string \<Rightarrow> 'a frame \<Rightarrow> error + 'a frame" where
  "getitem name df =
     (if name \<in> set (columns df)
      then Inr (keep_columns (\<lambda>c. c = name) df)
      else Inl KeyError)"

definition values_of :: "'a frame \<Rightarrow> 'a list list" where
  "values_of df = map snd (rows df)"

subsection \<open>Load the data\<close>

text \<open>
  What \<^verbatim>\<open>pd.read_excel\<close> hands over: a cell of the sheet is a text, a number, or empty.
  After \<^verbatim>\<open>astype(float)\<close> a value is a float: finite, \<^verbatim>\<open>nan\<close>, or an infinity.
\<close>

datatype xl_cell = Text string | Number real | Empty

datatype fval = Finite real | NaN | PosInf | NegInf

text \<open>\<^verbatim>\<open>econ_df.replace('..', 'nan')\<close>: the cells equal to the text \<^verbatim>\<open>..\<close> become the text \<^verbatim>\<open>nan\<close>.\<close>

definition replace_cell :: "xl_cell \<Rightarrow> xl_cell" where
  "replace_cell c = (if c = Text ''..'' then Text ''nan'' else c)"

definition replace :: "xl_cell frame \<Rightarrow> xl_cell frame" where
  "replace df = df\<lparr>rows := map (\<lambda>(label, row). (label, map replace_cell row)) (rows df)\<rparr>"

text \<open>
  \<^verbatim>\<open>float(s)\<close> on a text: the text \<^verbatim>\<open>nan\<close>, which the cell above writes, is the float
  \<^verbatim>\<open>nan\<close>; the reading of every other text is the parameter \<open>parse\<close> (\<open>None\<close> where
  Python raises \<^verbatim>\<open>ValueError\<close>).
\<close>

definition py_float :: "(string \<Rightarrow> fval option) \<Rightarrow> string \<Rightarrow> error + fval" where
  "py_float parse s =
     (if s = ''nan'' then Inr NaN
      else case parse s of None \<Rightarrow> Inl ValueError | Some v \<Rightarrow> Inr v)"

definition astype_float_cell :: "(string \<Rightarrow> fval option) \<Rightarrow> xl_cell \<Rightarrow> error + fval" where
  "astype_float_cell parse c =
     (case c of
        Number r \<Rightarrow> Inr (Finite r)
      | Empty \<Rightarrow> Inr NaN
      | Text s \<Rightarrow> py_float parse s)"

fun traverse :: "('a \<Rightarrow> error + 'b) \<Rightarrow> 'a list \<Rightarrow> error + 'b list" where
  "traverse f [] = Inr []"
| "traverse f (x # xs) =
     (case f x of
        Inl e \<Rightarrow> Inl e
      | Inr y \<Rightarrow> (case traverse f xs of Inl e \<Rightarrow> Inl e | Inr ys \<Rightarrow> Inr (y # ys)))"

definition astype_float_row ::
  "(string \<Rightarrow> fval option) \<Rightarrow> int \<times> xl_cell list \<Rightarrow> error + (int \<times> fval list)" where
  "astype_float_row parse lr =
     (case traverse (astype_float_cell parse) (snd lr) of
        Inl e \<Rightarrow> Inl e
      | Inr vs \<Rightarrow> Inr (fst lr, vs))"

text \<open>\<^verbatim>\<open>econ_df.astype(float)\<close>: every cell of the table, whatever its row.\<close>

definition astype_float :: "(string \<Rightarrow> fval option) \<Rightarrow> xl_cell frame \<Rightarrow> error + fval frame" where
  "astype_float parse df =
     (case traverse (astype_float_row parse) (rows df) of
        Inl e \<Rightarrow> Inl e
      | Inr rs \<Rightarrow> Inr \<lparr>columns = columns df, rows = rs\<rparr>)"

text \<open>
  \<^verbatim>\<open>econ_df.loc['1969':'2016']\<close> is a label slice. The labels are numbers (the last cell
  of the notebook looks a row up by the number 2002) and the bounds are texts, so neither
  bound is found as a label and both are placed by the order of the index; a bound is
  compared with a label as the year numbers they spell.
  \<^item> On an increasing index the slice runs from the first label not below 1969 to the last
    label not above 2016: the rows whose year lies in the closed range.
  \<^item> On a decreasing index the left bound is placed after the labels above 1969 and the
    right bound after the labels not below 2016, and the slice is what lies between.
  \<^item> On any other index the bounds cannot be placed and pandas raises \<^verbatim>\<open>KeyError\<close>.
\<close>

definition in_years :: "int \<Rightarrow> bool" where
  "in_years y = (1969 \<le> y \<and> y \<le> 2016)"

definition loc :: "'a frame \<Rightarrow> error + 'a frame" where
  "loc df =
     (let labels = map fst (rows df)
      in if sorted labels then
           Inr (df\<lparr>rows := filter (\<lambda>(label, row). in_years label) (rows df)\<rparr>)
         else if sorted (rev labels) then
           (let start = length (filter (\<lambda>l. 1969 < l) labels);
                stop = length (filter (\<lambda>l. 2016 \<le> l) labels)
            in Inr (df\<lparr>rows := take (stop - start) (List.drop start (rows df))\<rparr>))
         else Inl KeyError)"

definition column_names :: "(string \<times> string) list" where
  "column_names =
     [(''Unemployment, total (% of total labor force) (national estimate)'', ''unemployment''),
      (''GDP growth (annual %)'', ''gdp_growth''),
      (''Gross capital formation (% of GDP)'', ''gross_capital_formation''),
      (''Population growth (annual %)'', ''pop_growth''),
      (''Birth rate, crude (per 1,000 people)'', ''birth_rate''),
      (''Broad money growth (annual %)'', ''broad_money_growth''),
      (''Final consumption expenditure (% of GDP)'', ''final_consum_gdp''),
      (''Final consumption expenditure (annual % growth)'', ''final_consum_growth''),
      (''General government final consumption expenditure (annual % growth)'',
       ''gov_final_consum_growth''),
      (''Gross capital formation (annual % growth)'', ''gross_cap_form_growth''),
      (''Households and NPISHs Final consumption expenditure (annual % growth)'',
       ''hh_consum_growth'')]"

text \<open>\<^verbatim>\<open>econ_df.rename(columns = column_names)\<close>: a column with no entry keeps its name.\<close>

definition rename :: "(string \<times> string) list \<Rightarrow> 'a frame \<Rightarrow> 'a frame" where
  "rename names df =
     df\<lparr>columns := map (\<lambda>c. case map_of names c of None \<Rightarrow> c | Some n \<Rightarrow> n) (columns df)\<rparr>"

text \<open>
  The loading cell after \<^verbatim>\<open>read_excel\<close> and \<^verbatim>\<open>set_index('Year')\<close>: the argument is the
  sheet with the year column already serving as the row labels.
\<close>

definition load_data :: "(string \<Rightarrow> fval option) \<Rightarrow> xl_cell frame \<Rightarrow> error + fval frame" where
  "load_data parse sheet =
     (case astype_float parse (replace sheet) of
        Inl e \<Rightarrow> Inl e
      | Inr econ_df \<Rightarrow>
          (case loc econ_df of
             Inl e \<Rightarrow> Inl e
           | Inr sliced \<Rightarrow> Inr (rename column_names sliced)))"

text \<open>\<^verbatim>\<open>econ_df.isnull()\<close> marks the \<^verbatim>\<open>nan\<close> values.\<close>

definition isnull :: "fval \<Rightarrow> bool" where
  "isnull v = (v = NaN)"

definition is_finite :: "fval \<Rightarrow> bool" where
  "is_finite v = (case v of Finite r \<Rightarrow> True | _ \<Rightarrow> False)"

text \<open>
  The cell ends by displaying \<^verbatim>\<open>econ_df.isnull().any()\<close>, per column whether a value is
  marked. No column has one: \<open>no_missing\<close>. Every value is a finite float: \<open>all_finite\<close>.
\<close>

definition no_missing :: "fval frame \<Rightarrow> bool" where
  "no_missing df = list_all (\<lambda>(label, row). list_all (\<lambda>v. \<not> isnull v) row) (rows df)"

definition all_finite :: "fval frame \<Rightarrow> bool" where
  "all_finite df = list_all (\<lambda>(label, row). list_all is_finite row) (rows df)"

text \<open>A cell of the sheet that the loader turns into a finite float.\<close>

definition reads_finite :: "(string \<Rightarrow> fval option) \<Rightarrow> xl_cell \<Rightarrow> bool" where
  "reads_finite parse c =
     (case astype_float_cell parse (replace_cell c) of
        Inr (Finite r) \<Rightarrow> True
      | _ \<Rightarrow> False)"

subsection \<open>The libraries\<close>

text \<open>
  The result of a statsmodels fit: its coefficients \<^verbatim>\<open>est.params\<close>, and what the cells
  read from it, \<^verbatim>\<open>est.resid\<close> and \<^verbatim>\<open>est.model.exog\<close>.
\<close>

record ols_results =
  params :: vec
  resid :: vec
  exog :: mat

datatype cov_type = Nonrobust | HC1

type_synonym het_test = "vec \<Rightarrow> mat \<Rightarrow> error + (real \<times> real \<times> real \<times> real)"

text \<open>
  The library functions the cells call, and the number formatting of \<^verbatim>\<open>print\<close>. The
  type \<open>'m\<close> is scikit-learn's fitted \<^verbatim>\<open>LinearRegression\<close> object. The last argument
  of \<^verbatim>\<open>train_test_split\<close> is its \<^verbatim>\<open>random_state\<close>: a seed, or \<open>None\<close> for the state
  of the global generator.
  \<^verbatim>\<open>het_white\<close> and \<^verbatim>\<open>het_breuschpagan\<close> return the tuple (LM statistic, its p-value,
  F statistic, its p-value); \<^verbatim>\<open>acorr_ljungbox\<close> returns the statistics and the p-values,
  one per tested lag.
\<close>

record 'm lib =
  train_test_split :: "mat \<Rightarrow> vec \<Rightarrow> real \<Rightarrow> nat option \<Rightarrow> error + (mat \<times> mat \<times> vec \<times> vec)"
  LinearRegression_fit :: "mat \<Rightarrow> vec \<Rightarrow> error + 'm"
  predict :: "'m \<Rightarrow> mat \<Rightarrow> error + vec"
  OLS_fit :: "vec \<Rightarrow> mat \<Rightarrow> cov_type \<Rightarrow> error + ols_results"
  het_white :: het_test
  het_breuschpagan :: het_test
  acorr_ljungbox :: "vec \<Rightarrow> nat \<Rightarrow> error + (vec \<times> vec)"
  str :: "real \<Rightarrow> string"
  str_int :: "nat \<Rightarrow> string"
  format_4 :: "real \<Rightarrow> string"
  format_3 :: "real \<Rightarrow> string"
  format_2 :: "real \<Rightarrow> string"

definition dashes :: string where
  "dashes = replicate 100 (CHR ''-'')"

subsection \<open>Build the model\<close>

text \<open>
  The cell drops a list of columns, takes \<^verbatim>\<open>gdp_growth\<close> as the target and the rest as
  the features, splits both with \<^verbatim>\<open>test_size=0.20, random_state=1\<close> and fits
  scikit-learn's linear regression on the training part. A one-column table is read as the
  list of its values. The notebook has the cell twice, with two lists: the list is the
  argument \<open>names\<close>.
\<close>

definition build_model ::
  "'m lib \<Rightarrow> string list \<Rightarrow> real frame \<Rightarrow> error + (mat \<times> vec \<times> mat \<times> mat \<times> vec \<times> vec \<times> 'm)" where
  "build_model L names econ_df =
     (case drop_columns names econ_df of
        Inl e \<Rightarrow> Inl e
      | Inr econ_df_after \<Rightarrow>
     (case drop_columns [''gdp_growth''] econ_df_after of
        Inl e \<Rightarrow> Inl e
      | Inr X_frame \<Rightarrow>
     (case getitem ''gdp_growth'' econ_df_after of
        Inl e \<Rightarrow> Inl e
      | Inr Y_frame \<Rightarrow>
     (let X = values_of X_frame; Y = concat (values_of Y_frame)
      in case train_test_split L X Y 0.20 (Some 1) of
           Inl e \<Rightarrow> Inl e
         | Inr (X_train, X_test, y_train, y_test) \<Rightarrow>
        (case LinearRegression_fit L X_train y_train of
           Inl e \<Rightarrow> Inl e
         | Inr regression_model \<Rightarrow>
             Inr (X, Y, X_train, X_test, y_train, y_test, regression_model))))))"

subsection \<open>Evaluating the model with statsmodels\<close>

text \<open>
  Modelled from the spec: \<^verbatim>\<open>sm.add_constant\<close> is library code that is not under src/.
  The spec's feature matrix is "a subset of Dataset columns, optionally with an added
  constant (intercept) column": the column of ones, put first.
\<close>

definition add_constant :: "mat \<Rightarrow> mat" where
  "add_constant X = map (\<lambda>row. 1 # row) X"

text \<open>\<^verbatim>\<open>X2 = sm.add_constant(X); model = sm.OLS(Y, X2); est = model.fit()\<close>\<close>

definition statsmodels_fit :: "'m lib \<Rightarrow> mat \<Rightarrow> vec \<Rightarrow> error + (mat \<times> ols_results)" where
  "statsmodels_fit L X Y =
     (let X2 = add_constant X
      in case OLS_fit L Y X2 Nonrobust of
           Inl e \<Rightarrow> Inl e
         | Inr est \<Rightarrow> Inr (X2, est))"

text \<open>\<^verbatim>\<open>model = sm.OLS(Y, X2); robust_ols = model.fit(cov_type='HC1')\<close>\<close>

definition robust_fit :: "'m lib \<Rightarrow> mat \<Rightarrow> vec \<Rightarrow> error + ols_results" where
  "robust_fit L X2 Y = OLS_fit L Y X2 HC1"

subsection \<open>Checking for heteroscedasticity\<close>

definition white_no_het :: string where
  "white_no_het = ''We fail to reject the null hypthoesis, so there is no heteroscedasticity. \<newline>''"

definition white_het :: string where
  "white_het = ''We reject the null hypthoesis, so there is heteroscedasticity. \<newline>''"

definition bp_no_het :: string where
  "bp_no_het = ''We fail to reject the null hypthoesis, so there is no heteroscedasticity.''"

definition bp_het :: string where
  "bp_het = ''We reject the null hypthoesis, so there is heteroscedasticity.''"

definition white_report :: "'m lib \<Rightarrow> real \<Rightarrow> string list" where
  "white_report L pval =
     (if pval > 0.05 then
        [''For the White's Test'',
         ''The p-value was '' @ format_4 L pval,
         white_no_het]
      else
        [''For the White's Test'',
         ''The p-value was '' @ format_4 L pval,
         white_het])"

definition breuschpagan_report :: "'m lib \<Rightarrow> real \<Rightarrow> string list" where
  "breuschpagan_report L pval =
     (if pval > 0.05 then
        [''For the Breusch-Pagan's Test'',
         ''The p-value was '' @ format_4 L pval,
         bp_no_het]
      else
        [''For the Breusch-Pagan's Test'',
         ''The p-value was '' @ format_4 L pval,
         bp_het])"

text \<open>
  The cell: White's test first, then the Breusch-Pagan test, both on \<^verbatim>\<open>est.resid\<close> and
  \<^verbatim>\<open>est.model.exog\<close>. Each test prints its two p-values, a rule, and its report.
\<close>

definition check_heteroscedasticity :: "'m lib \<Rightarrow> ols_results \<Rightarrow> error + string list" where
  "check_heteroscedasticity L est =
     (case het_white L (resid est) (exog est) of
        Inl e \<Rightarrow> Inl e
      | Inr (_, pval, _, f_pval) \<Rightarrow>
          (let out1 = [str L pval @ '' '' @ str L f_pval, dashes] @ white_report L pval
           in case het_breuschpagan L (resid est) (exog est) of
                Inl e \<Rightarrow> Inl e
              | Inr (_, pval', _, f_pval') \<Rightarrow>
                  Inr (out1 @ [str L pval' @ '' '' @ str L f_pval', dashes]
                         @ breuschpagan_report L pval')))"

subsection \<open>Checking for autocorrelation\<close>

text \<open>Python's \<^verbatim>\<open>min\<close> of a sequence: \<^verbatim>\<open>ValueError\<close> on the empty one.\<close>

definition py_min :: "real list \<Rightarrow> error + real" where
  "py_min xs =
     (case xs of
        [] \<Rightarrow> Inl ValueError
      | x # rest \<Rightarrow> Inr (fold (\<lambda>y m. if y < m then y else m) rest x))"

definition no_autocorr :: string where
  "no_autocorr = ''We fail to reject the null hypthoesis, so there is no autocorrelation.''"

definition autocorr :: string where
  "autocorr = ''We reject the null hypthoesis, so there is autocorrelation.''"

text \<open>
  The cell computes the lag from \<^verbatim>\<open>len(X)\<close>, runs the Ljung-Box test on \<^verbatim>\<open>est.resid\<close>
  and decides on the smallest p-value.
\<close>

definition check_autocorrelation :: "'m lib \<Rightarrow> mat \<Rightarrow> ols_results \<Rightarrow> error + string list" where
  "check_autocorrelation L X est =
     (let lag = min 10 (length X div 5);
          out1 = [''The number of lags will be '' @ str_int L lag, dashes]
      in case acorr_ljungbox L (resid est) lag of
           Inl e \<Rightarrow> Inl e
         | Inr (ibvalue, p_val) \<Rightarrow>
             (case py_min p_val of
                Inl e \<Rightarrow> Inl e
              | Inr lowest \<Rightarrow>
                  (if lowest > 0.05 then
                     Inr (out1 @ [''The lowest p-value found was '' @ format_4 L lowest,
                                  no_autocorr, dashes])
                   else
                     Inr (out1 @ [''The lowest p-value found was '' @ format_4 L lowest,
                                  autocorr, dashes]))))"

subsection \<open>Mean of the residuals\<close>

text \<open>\<^verbatim>\<open>mean_residuals = sum(est.resid) / len(est.resid)\<close>\<close>

definition mean_residuals :: "vec \<Rightarrow> error + real" where
  "mean_residuals r =
     (if length r = 0 then Inl ZeroDivisionError
      else Inr (sum_list r / real (length r)))"

definition check_residual_mean :: "'m lib \<Rightarrow> ols_results \<Rightarrow> error + (real \<times> string list)" where
  "check_residual_mean L est =
     (case mean_residuals (resid est) of
        Inl e \<Rightarrow> Inl e
      | Inr m \<Rightarrow> Inr (m, [''The mean of the residuals is '' @ format_4 L m]))"

subsection \<open>Measures of error\<close>

text \<open>
  Modelled from the spec: scikit-learn's \<^verbatim>\<open>mean_absolute_error\<close> is library code that is
  not under src/. The spec's Evaluator: "given true and predicted target vectors of equal
  length, compute MAE = mean(|y - y_hat|)", and it "fails with a ShapeError if the two
  vectors differ in length". The spec gives the mean of no values no value; the model
  raises there.
\<close>

definition mean_absolute_error :: "vec \<Rightarrow> vec \<Rightarrow> error + real" where
  "mean_absolute_error y_true y_pred =
     (if length y_true \<noteq> length y_pred then Inl ShapeError
      else if y_true = [] then Inl ZeroDivisionError
      else Inr (sum_list (map2 (\<lambda>y p. \<bar>y - p\<bar>) y_true y_pred) / real (length y_true)))"

text \<open>
  Modelled from the spec: scikit-learn's \<^verbatim>\<open>mean_squared_error\<close> is library code that is
  not under src/. The spec's Evaluator: "MSE = mean((y - y_hat)^2)", with the same
  \<open>ShapeError\<close> for two vectors that differ in length.
\<close>

definition mean_squared_error :: "vec \<Rightarrow> vec \<Rightarrow> error + real" where
  "mean_squared_error y_true y_pred =
     (if length y_true \<noteq> length y_pred then Inl ShapeError
      else if y_true = [] then Inl ZeroDivisionError
      else Inr (sum_list (map2 (\<lambda>y p. (y - p) * (y - p)) y_true y_pred) / real (length y_true)))"

text \<open>
  Modelled from the spec: scikit-learn's \<^verbatim>\<open>r2_score\<close> is library code that is not under
  src/. The spec's Evaluator: "R^2 = 1 - SS_res/SS_tot", with the same \<open>ShapeError\<close>. The
  spec gives the quotient no value when \<open>SS_tot\<close> is zero; the model raises there.
\<close>

definition r2_score :: "vec \<Rightarrow> vec \<Rightarrow> error + real" where
  "r2_score y_true y_pred =
     (if length y_true \<noteq> length y_pred then Inl ShapeError
      else if y_true = [] then Inl ZeroDivisionError
      else
        (let y_bar = sum_list y_true / real (length y_true);
             ss_res = sum_list (map2 (\<lambda>y p. (y - p) * (y - p)) y_true y_pred);
             ss_tot = sum_list (map (\<lambda>y. (y - y_bar) * (y - y_bar)) y_true)
         in if ss_tot = 0 then Inl ZeroDivisionError else Inr (1 - ss_res / ss_tot)))"

text \<open>\<^verbatim>\<open>math.sqrt\<close>: \<^verbatim>\<open>ValueError\<close> below zero.\<close>

definition py_sqrt :: "real \<Rightarrow> error + real" where
  "py_sqrt x = (if x < 0 then Inl ValueError else Inr (sqrt x))"

text \<open>
  The cell computes the mean squared error, the mean absolute error and the root of the
  former, in this order, and prints the three.
\<close>

definition measures_of_error ::
  "'m lib \<Rightarrow> vec \<Rightarrow> vec \<Rightarrow> error + ((real \<times> real \<times> real) \<times> string list)" where
  "measures_of_error L y_test y_predict =
     (case mean_squared_error y_test y_predict of
        Inl e \<Rightarrow> Inl e
      | Inr model_mse \<Rightarrow>
     (case mean_absolute_error y_test y_predict of
        Inl e \<Rightarrow> Inl e
      | Inr model_mae \<Rightarrow>
     (case py_sqrt model_mse of
        Inl e \<Rightarrow> Inl e
      | Inr model_rmse \<Rightarrow>
          Inr ((model_mse, model_mae, model_rmse),
               [''MSE '' @ format_3 L model_mse,
                ''MAE '' @ format_3 L model_mae,
                ''RMSE '' @ format_3 L model_rmse]))))"

definition r_squared :: "'m lib \<Rightarrow> vec \<Rightarrow> vec \<Rightarrow> error + (real \<times> string list)" where
  "r_squared L y_test y_predict =
     (case r2_score y_test y_predict of
        Inl e \<Rightarrow> Inl e
      | Inr model_r2 \<Rightarrow> Inr (model_r2, [''R2: '' @ format_2 L model_r2]))"

subsection \<open>The notebook, top to bottom\<close>

text \<open>
  The variables the regression cells have bound when the cell of R-squared has run.
\<close>

record 'm globals =
  nb_X :: mat
  nb_Y :: vec
  nb_X_train :: mat
  nb_X_test :: mat
  nb_y_train :: vec
  nb_y_test :: vec
  nb_regression_model :: 'm
  nb_y_predict :: vec
  nb_X2 :: mat
  nb_est :: ols_results
  nb_robust_ols :: ols_results
  nb_mean_residuals :: real
  nb_model_mse :: real
  nb_model_mae :: real
  nb_model_rmse :: real
  nb_model_r2 :: real
  nb_printed :: "string list"

text \<open>
  The cells in the order of the notebook, from the cleaned table \<^verbatim>\<open>econ_df\<close> on: build
  the model, predict on the test part, fit with statsmodels, check heteroscedasticity, fit
  with robust errors, check autocorrelation, check the mean of the residuals, measure the
  errors, compute R-squared. The cells in between only display values (coefficients,
  summaries, confidence intervals) and bind none of these variables.
\<close>

definition notebook :: "'m lib \<Rightarrow> real frame \<Rightarrow> error + 'm globals" where
  "notebook L econ_df =
     (case build_model L [''birth_rate'', ''final_consum_growth'', ''gross_capital_formation'']
             econ_df of
        Inl e \<Rightarrow> Inl e
      | Inr (X, Y, X_train, X_test, y_train, y_test, regression_model) \<Rightarrow>
     (case predict L regression_model X_test of
        Inl e \<Rightarrow> Inl e
      | Inr y_predict \<Rightarrow>
     (case statsmodels_fit L X Y of
        Inl e \<Rightarrow> Inl e
      | Inr (X2, est) \<Rightarrow>
     (case check_heteroscedasticity L est of
        Inl e \<Rightarrow> Inl e
      | Inr out_het \<Rightarrow>
     (case robust_fit L X2 Y of
        Inl e \<Rightarrow> Inl e
      | Inr robust_ols \<Rightarrow>
     (case check_autocorrelation L X est of
        Inl e \<Rightarrow> Inl e
      | Inr out_acorr \<Rightarrow>
     (case check_residual_mean L est of
        Inl e \<Rightarrow> Inl e
      | Inr (mean_resid, out_mean) \<Rightarrow>
     (case measures_of_error L y_test y_predict of
        Inl e \<Rightarrow> Inl e
      | Inr ((model_mse, model_mae, model_rmse), out_err) \<Rightarrow>
     (case r_squared L y_test y_predict of
        Inl e \<Rightarrow> Inl e
      | Inr (model_r2, out_r2) \<Rightarrow>
          Inr \<lparr>nb_X = X, nb_Y = Y,
               nb_X_train = X_train, nb_X_test = X_test,
               nb_y_train = y_train, nb_y_test = y_test,
               nb_regression_model = regression_model,
               nb_y_predict = y_predict,
               nb_X2 = X2, nb_est = est, nb_robust_ols = robust_ols,
               nb_mean_residuals = mean_resid,
               nb_model_mse = model_mse, nb_model_mae = model_mae,
               nb_model_rmse = model_rmse, nb_model_r2 = model_r2,
               nb_printed = out_het @ out_acorr @ out_mean @ out_err @ out_r2\<rparr>)))))))))"

text \<open>
  Remove the insignificant variables: the cells after R-squared build the model again with
  two more columns dropped and fit it again with statsmodels. They bind \<^verbatim>\<open>X\<close>, \<^verbatim>\<open>Y\<close>,
  the split, \<^verbatim>\<open>regression_model\<close>, \<^verbatim>\<open>X2\<close> and \<^verbatim>\<open>est\<close> anew and run none of the checks
  again. The last cell, which saves the model with \<^verbatim>\<open>pickle\<close> and loads it back, is left
  out: persistence is an opaque boundary.
\<close>

definition remove_insignificant ::
  "'m lib \<Rightarrow> real frame
     \<Rightarrow> error + ((mat \<times> vec \<times> mat \<times> mat \<times> vec \<times> vec \<times> 'm) \<times> mat \<times> ols_results)" where
  "remove_insignificant L econ_df =
     (case build_model L [''birth_rate'', ''final_consum_growth'', ''gross_capital_formation'',
                          ''broad_money_growth'', ''unemployment''] econ_df of
        Inl e \<Rightarrow> Inl e
      | Inr (X, Y, X_train, X_test, y_train, y_test, regression_model) \<Rightarrow>
     (case statsmodels_fit L X Y of
        Inl e \<Rightarrow> Inl e
      | Inr (X2, est) \<Rightarrow>
          Inr ((X, Y, X_train, X_test, y_train, y_test, regression_model), X2, est)))"

subsection \<open>The least-squares fit\<close>

text \<open>
  Modelled from the spec: the fit behind \<^verbatim>\<open>sm.OLS(Y, X2).fit()\<close> is library code that is
  not under src/. The spec's Model Fitter: a prediction is "intercept + X . coefficients",
  the intercept being the coefficient of the constant column of the design matrix; so the
  prediction for a row is the product of the row with the coefficient vector.
\<close>

definition dot :: "vec \<Rightarrow> vec \<Rightarrow> real" where
  "dot a b = sum_list (map2 (*) a b)"

text \<open>
  Modelled from the spec: same library code. The spec's predictions of a fitted model for
  the rows of a feature matrix, "y_hat = intercept + X . coefficients".
\<close>

definition predictions :: "mat \<Rightarrow> vec \<Rightarrow> vec" where
  "predictions D beta = map (\<lambda>row. dot row beta) D"

text \<open>
  Modelled from the spec: same library code. The spec's Model Fitter exposes the
  "residuals (Y - Y_hat)".
\<close>

definition residuals :: "mat \<Rightarrow> vec \<Rightarrow> vec \<Rightarrow> vec" where
  "residuals D y beta = map2 (-) y (predictions D beta)"

text \<open>
  Modelled from the spec: same library code. The spec's "sum of squared residuals".
\<close>

definition ssr :: "mat \<Rightarrow> vec \<Rightarrow> vec \<Rightarrow> real" where
  "ssr D y beta = sum_list (map (\<lambda>r. r * r) (residuals D y beta))"

text \<open>
  Modelled from the spec: same library code. The spec's Model Fitter "returns fitted
  coefficients minimizing sum of squared residuals": no coefficient vector of the same
  length has a smaller sum.
\<close>

definition least_squares :: "mat \<Rightarrow> vec \<Rightarrow> vec \<Rightarrow> bool" where
  "least_squares D y beta = (\<forall>b. length b = length beta \<longrightarrow> ssr D y beta \<le> ssr D y b)"

text \<open>
  A valid pair of a design matrix and a target for \<open>k\<close> coefficients: one target value per
  row, \<open>k\<close> entries in every row.
\<close>

definition valid_design :: "mat \<Rightarrow> vec \<Rightarrow> nat \<Rightarrow> bool" where
  "valid_design D y k = (length y = length D \<and> list_all (\<lambda>row. length row = k) D)"

text \<open>Column \<open>j\<close> of the design matrix is an intercept column: one non-zero value in every row.\<close>

definition constant_column :: "mat \<Rightarrow> nat \<Rightarrow> bool" where
  "constant_column D j =
     (case D of
        [] \<Rightarrow> False
      | row0 # _ \<Rightarrow> row0 ! j \<noteq> 0 \<and> list_all (\<lambda>row. row ! j = row0 ! j) D)"

text \<open>
  Modelled from the spec: same library code. The spec's Fitted Model "holds a coefficient
  vector" and the residuals and is "created by the Fitter from (X, Y)": \<open>est\<close> is a fit of
  the design matrix \<open>D\<close> and the target \<open>y\<close> when \<open>D\<close> is its design matrix, its coefficients
  minimize the sum of squared residuals, and its residuals are those of its coefficients.
\<close>

definition fitted :: "mat \<Rightarrow> vec \<Rightarrow> ols_results \<Rightarrow> bool" where
  "fitted D y est =
     (exog est = D \<and> least_squares D y (params est) \<and> resid est = residuals D y (params est))"

text \<open>
  The design matrix with \<open>k\<close> columns is well-conditioned: no column is a combination of
  the others, that is, only the zero vector is sent to zero by every row.
\<close>

definition full_column_rank :: "mat \<Rightarrow> nat \<Rightarrow> bool" where
  "full_column_rank D k =
     (\<forall>v. length v = k \<longrightarrow> list_all (\<lambda>row. dot row v = 0) D \<longrightarrow> v = replicate k 0)"

subsection \<open>Two runs\<close>

text \<open>
  Two runs see the libraries \<open>L\<close> and \<open>L'\<close>. The libraries of two runs agree when seeded:
  every function returns the same in both, except that the split without a seed, which
  reads the global generator, may differ between them.
\<close>

definition agree_when_seeded :: "'m lib \<Rightarrow> 'm lib \<Rightarrow> bool" where
  "agree_when_seeded L L' =
     ((\<forall>X Y test_size seed.
          train_test_split L X Y test_size (Some seed) = train_test_split L' X Y test_size (Some seed))
      \<and> LinearRegression_fit L = LinearRegression_fit L'
      \<and> predict L = predict L'
      \<and> OLS_fit L = OLS_fit L'
      \<and> het_white L = het_white L'
      \<and> het_breuschpagan L = het_breuschpagan L'
      \<and> acorr_ljungbox L = acorr_ljungbox L'
      \<and> str L = str L' \<and> str_int L = str_int L'
      \<and> format_4 L = format_4 L' \<and> format_3 L = format_3 L' \<and> format_2 L = format_2 L')"

subsection \<open>What the loader does to a row\<close>

text \<open>
  A row of the loaded table against the row of the sheet it comes from: the same label,
  and every value the float that the replaced cell is coerced to.
\<close>

definition coerced ::
  "(string \<Rightarrow> fval option) \<Rightarrow> int \<times> xl_cell list \<Rightarrow> int \<times> fval list \<Rightarrow> bool" where
  "coerced parse lr lv =
     (fst lv = fst lr \<and>
      list_all2 (\<lambda>c v. astype_float_cell parse (replace_cell c) = Inr v) (snd lr) (snd lv))"

subsection \<open>Concrete data for running the cells\<close>

text \<open>Two readings of texts: one that reads none, one that reads two literals.\<close>

definition reads_nothing :: "string \<Rightarrow> fval option" where
  "reads_nothing s = None"

definition reads_some :: "string \<Rightarrow> fval option" where
  "reads_some s =
     (if s = ''2.5'' then Some (Finite 2.5)
      else if s = ''inf'' then Some PosInf
      else None)"

text \<open>
  A stand-in for the libraries: the split puts the first two rows into the test part, the
  regression predicts the mean of its training target, the statsmodels fit keeps the
  target as residuals, the heteroscedasticity tests return the given p-values and the
  Ljung-Box test the first \<open>lag\<close> of the given ones. A second one differs from it in the
  split without a seed only, which puts the first three rows into the test part.
\<close>

definition stub :: "real \<Rightarrow> real \<Rightarrow> vec \<Rightarrow> real lib" where
  "stub pw pb ps =
     \<lparr>train_test_split = (\<lambda>X Y test_size random_state.
          Inr (List.drop 2 X, take 2 X, List.drop 2 Y, take 2 Y)),
      LinearRegression_fit = (\<lambda>X y. if y = [] then Inl ValueError
                                      else Inr (sum_list y / real (length y))),
      predict = (\<lambda>m X. Inr (map (\<lambda>row. m) X)),
      OLS_fit = (\<lambda>y X c. Inr \<lparr>params = [], resid = y, exog = X\<rparr>),
      het_white = (\<lambda>r X. Inr (0, pw, 0, pw)),
      het_breuschpagan = (\<lambda>r X. Inr (0, pb, 0, pb)),
      acorr_ljungbox = (\<lambda>r lag. Inr (replicate lag 0, take lag ps)),
      str = (\<lambda>x. ''#''),
      str_int = (\<lambda>n. ''#''),
      format_4 = (\<lambda>x. ''#''),
      format_3 = (\<lambda>x. ''#''),
      format_2 = (\<lambda>x. ''#'')\<rparr>"

definition stub' :: "real \<Rightarrow> real \<Rightarrow> vec \<Rightarrow> real lib" where
  "stub' pw pb ps =
     (stub pw pb ps)
       \<lparr>train_test_split := (\<lambda>X Y test_size random_state.
          case random_state of
            None \<Rightarrow> Inr (List.drop 3 X, take 3 X, List.drop 3 Y, take 3 Y)
          | Some seed \<Rightarrow> Inr (List.drop 2 X, take 2 X, List.drop 2 Y, take 2 Y))\<rparr>"

text \<open>A table of five years and seven of the columns.\<close>

definition korea5 :: "real frame" where
  "korea5 =
     \<lparr>columns = [''gdp_growth'', ''birth_rate'', ''final_consum_growth'',
                 ''gross_capital_formation'', ''unemployment'', ''broad_money_growth'',
                 ''pop_growth''],
      rows = [(1969, [14, 30, 10, 29, 4, 61, 2]),
              (1970, [10, 31, 10, 26, 4, 27, 2]),
              (1971, [10, 31, 10, 26, 5, 21, 2]),
              (1972, [7, 28, 6, 21, 5, 34, 2]),
              (1973, [14, 28, 8, 25, 4, 36, 2])]\<rparr>"

text \<open>
  The least-squares line through \<open>(0, 0)\<close>, \<open>(1, 1)\<close>, \<open>(2, 0)\<close>: intercept \<open>1/3\<close>, slope \<open>0\<close>.
\<close>

definition est3 :: ols_results where
  "est3 = \<lparr>params = [1 / 3, 0], resid = [- 1 / 3, 2 / 3, - 1 / 3],
           exog = [[1, 0], [1, 1], [1, 2]]\<rparr>"

text \<open>A sheet with the sentinel and an empty cell only outside the years 1969 to 2016.\<close>

definition sheet4 :: "xl_cell frame" where
  "sheet4 =
     \<lparr>columns = [''GDP growth (annual %)'', ''Population growth (annual %)''],
      rows = [(1968, [Text ''..'', Number 3]),
              (1969, [Number 14.5, Text ''2.5'']),
              (2016, [Number 2.5, Number 0.5]),
              (2017, [Text ''..'', Empty])]\<rparr>"

text \<open>The years in decreasing order, the sentinel in 1970.\<close>

definition sheet_decreasing :: "xl_cell frame" where
  "sheet_decreasing =
     \<lparr>columns = [''GDP growth (annual %)''],
      rows = [(2016, [Number 1]), (1970, [Text ''..''])]\<rparr>"

text \<open>The years in no order.\<close>

definition sheet_unsorted :: "xl_cell frame" where
  "sheet_unsorted =
     \<lparr>columns = [''GDP growth (annual %)''],
      rows = [(1970, [Number 1]), (2016, [Number 2]), (1969, [Number 3])]\<rparr>"

section \<open>Properties\<close>

subsection \<open>The decision of the heteroscedasticity tests\<close>

lemma white_lines_differ: "white_no_het \<noteq> white_het"
  by (simp add: white_no_het_def white_het_def)

lemma bp_lines_differ: "bp_no_het \<noteq> bp_het"
  by (simp add: bp_no_het_def bp_het_def)

lemma white_report_shape:
  "length (white_report L p) = 3 \<and>
   white_report L p ! 2 = (if p > 0.05 then white_no_het else white_het)"
  by (simp add: white_report_def)

lemma breuschpagan_report_shape:
  "length (breuschpagan_report L p) = 3 \<and>
   breuschpagan_report L p ! 2 = (if p > 0.05 then bp_no_het else bp_het)"
  by (simp add: breuschpagan_report_def)

lemma check_heteroscedasticity_output:
  assumes w: "het_white L (resid est) (exog est) = Inr (lm, pw, fv, fp)"
      and b: "het_breuschpagan L (resid est) (exog est) = Inr (lm', pb, fv', fp')"
  shows "check_heteroscedasticity L est =
           Inr ([str L pw @ '' '' @ str L fp, dashes] @ white_report L pw
                @ [str L pb @ '' '' @ str L fp', dashes] @ breuschpagan_report L pb)"
  by (simp add: check_heteroscedasticity_def w b)

text \<open>
  C2. Whenever the two tests return their tuples for the residuals and the design matrix
  of a fit, the cell prints ten lines; line 4 is White's verdict and line 9 the
  Breusch-Pagan verdict. Each verdict is "no heteroscedasticity" exactly when the test's
  p-value is strictly greater than 0.05 and "heteroscedasticity" otherwise; a p-value equal
  to 0.05 is on the "heteroscedasticity" side for both tests.
\<close>

theorem heteroscedasticity_decision_rule:
  assumes w: "het_white L (resid est) (exog est) = Inr (lm, pw, fv, fp)"
      and b: "het_breuschpagan L (resid est) (exog est) = Inr (lm', pb, fv', fp')"
  shows "\<exists>out. check_heteroscedasticity L est = Inr out \<and> length out = 10
           \<and> (out ! 4 = white_no_het \<longleftrightarrow> pw > 0.05)
           \<and> (out ! 4 = white_het \<longleftrightarrow> \<not> pw > 0.05)
           \<and> (out ! 9 = bp_no_het \<longleftrightarrow> pb > 0.05)
           \<and> (out ! 9 = bp_het \<longleftrightarrow> \<not> pb > 0.05)
           \<and> (pw = 0.05 \<longrightarrow> out ! 4 = white_het)
           \<and> (pb = 0.05 \<longrightarrow> out ! 9 = bp_het)"
proof -
  let ?out = "[str L pw @ '' '' @ str L fp, dashes] @ white_report L pw
                @ [str L pb @ '' '' @ str L fp', dashes] @ breuschpagan_report L pb"
  have run: "check_heteroscedasticity L est = Inr ?out"
    by (rule check_heteroscedasticity_output [OF w b])
  have len: "length ?out = 10"
    by (simp add: white_report_shape breuschpagan_report_shape)
  have w4: "?out ! 4 = (if pw > 0.05 then white_no_het else white_het)"
    using white_report_shape [of L pw] by (simp add: nth_append)
  have b9: "?out ! 9 = (if pb > 0.05 then bp_no_het else bp_het)"
    using breuschpagan_report_shape [of L pb] white_report_shape [of L pw]
    by (simp add: nth_append)
  show ?thesis
    using run len w4 b9 white_lines_differ bp_lines_differ by auto
qed

theorem heteroscedasticity_decision_rule_witness:
  "(\<exists>out. check_heteroscedasticity (stub 0.05 0.06 []) est3 = Inr out
          \<and> out ! 4 = white_het \<and> out ! 9 = bp_no_het)
   \<and> (\<exists>out. check_heteroscedasticity (stub 0.5 0.05 []) est3 = Inr out
          \<and> out ! 4 = white_no_het \<and> out ! 9 = bp_het)"
proof -
  have w1: "het_white (stub 0.05 0.06 []) (resid est3) (exog est3) = Inr (0, 0.05, 0, 0.05)"
    by (simp add: stub_def)
  have b1: "het_breuschpagan (stub 0.05 0.06 []) (resid est3) (exog est3) = Inr (0, 0.06, 0, 0.06)"
    by (simp add: stub_def)
  have w2: "het_white (stub 0.5 0.05 []) (resid est3) (exog est3) = Inr (0, 0.5, 0, 0.5)"
    by (simp add: stub_def)
  have b2: "het_breuschpagan (stub 0.5 0.05 []) (resid est3) (exog est3) = Inr (0, 0.05, 0, 0.05)"
    by (simp add: stub_def)
  from heteroscedasticity_decision_rule [OF w1 b1]
  have first: "\<exists>out. check_heteroscedasticity (stub 0.05 0.06 []) est3 = Inr out
          \<and> out ! 4 = white_het \<and> out ! 9 = bp_no_het"
    by auto
  from heteroscedasticity_decision_rule [OF w2 b2]
  have second: "\<exists>out. check_heteroscedasticity (stub 0.5 0.05 []) est3 = Inr out
          \<and> out ! 4 = white_no_het \<and> out ! 9 = bp_het"
    by auto
  from first second show ?thesis by blast
qed

subsection \<open>The decision of the Ljung-Box test\<close>

lemma fold_min_eq:
  "fold (\<lambda>y m. if y < m then y else m) xs (x::real) = Min (insert x (set xs))"
proof (induction xs arbitrary: x)
  case Nil
  then show ?case by simp
next
  case (Cons a xs)
  have "Min (insert (if a < x then a else x) (set xs)) = Min (insert x (insert a (set xs)))"
  proof (cases "set xs = {}")
    case True
    then show ?thesis by (simp add: min_def)
  next
    case False
    have fin: "finite (set xs)" by simp
    have l: "Min (insert (if a < x then a else x) (set xs))
               = min (if a < x then a else x) (Min (set xs))"
      by (rule Min_insert [OF fin False])
    have r1: "Min (insert x (insert a (set xs))) = min x (Min (insert a (set xs)))"
      by (rule Min_insert) simp_all
    have r2: "Min (insert a (set xs)) = min a (Min (set xs))"
      by (rule Min_insert [OF fin False])
    show ?thesis
      unfolding l r1 r2 by (simp add: min_def)
  qed
  then show ?case using Cons.IH by simp
qed

lemma py_min_Min: "xs \<noteq> [] \<Longrightarrow> py_min xs = Inr (Min (set xs))"
  by (cases xs) (simp_all add: py_min_def fold_min_eq)

lemma autocorr_lines_differ: "no_autocorr \<noteq> autocorr"
  by (simp add: no_autocorr_def autocorr_def)

text \<open>
  C3. For the residuals of a fit with one residual per row of \<open>X\<close>, the cell asks the
  Ljung-Box test for \<open>min 10 (n div 5)\<close> lags, \<open>n\<close> the number of residuals, and prints
  that number. Whenever the test returns p-values, at least one, line 3 of the output is
  the verdict: "no autocorrelation" exactly when the minimum of the p-values is strictly
  greater than 0.05, and "autocorrelation" otherwise.
\<close>

theorem ljung_box_decision_rule:
  assumes n: "length (resid est) = length X"
      and run: "acorr_ljungbox L (resid est) (min 10 (length (resid est) div 5))
                  = Inr (ibvalue, p_val)"
      and lags: "p_val \<noteq> []"
  shows "\<exists>out. check_autocorrelation L X est = Inr out \<and> length out = 5
           \<and> out ! 0 = ''The number of lags will be ''
                          @ str_int L (min 10 (length (resid est) div 5))
           \<and> (out ! 3 = no_autocorr \<longleftrightarrow> Min (set p_val) > 0.05)
           \<and> (out ! 3 = autocorr \<longleftrightarrow> \<not> Min (set p_val) > 0.05)"
proof -
  have m: "py_min p_val = Inr (Min (set p_val))"
    by (rule py_min_Min [OF lags])
  show ?thesis
  proof (cases "Min (set p_val) > 0.05")
    case True
    then show ?thesis
      using run m autocorr_lines_differ
      by (simp add: check_autocorrelation_def n [symmetric] Let_def)
  next
    case False
    then show ?thesis
      using run m autocorr_lines_differ
      by (simp add: check_autocorrelation_def n [symmetric] Let_def)
  qed
qed

theorem ljung_box_decision_rule_witness:
  "(\<exists>out. check_autocorrelation (stub 1 1 [0.5, 0.04]) (replicate 5 [1])
            \<lparr>params = [0], resid = replicate 5 1, exog = replicate 5 [1]\<rparr> = Inr out
          \<and> out ! 3 = no_autocorr)
   \<and> (\<exists>out. check_autocorrelation (stub 1 1 [0.5, 0.04]) (replicate 10 [1])
            \<lparr>params = [0], resid = replicate 10 1, exog = replicate 10 [1]\<rparr> = Inr out
          \<and> out ! 3 = autocorr)"
proof -
  let ?L = "stub 1 1 [0.5, 0.04]"
  let ?e5 = "\<lparr>params = [0], resid = replicate 5 1, exog = replicate 5 [1]\<rparr>"
  let ?e10 = "\<lparr>params = [0], resid = replicate 10 1, exog = replicate 10 [1]\<rparr>"
  have n5: "length (resid ?e5) = length (replicate 5 [1::real])" by simp
  have r5: "acorr_ljungbox ?L (resid ?e5) (min 10 (length (resid ?e5) div 5)) = Inr ([0], [0.5])"
    by (simp add: stub_def)
  have n10: "length (resid ?e10) = length (replicate 10 [1::real])" by simp
  have r10: "acorr_ljungbox ?L (resid ?e10) (min 10 (length (resid ?e10) div 5))
               = Inr ([0, 0], [0.5, 0.04])"
    by (simp add: stub_def numeral_2_eq_2)
  from ljung_box_decision_rule [OF n5 r5]
  have first: "\<exists>out. check_autocorrelation ?L (replicate 5 [1]) ?e5 = Inr out \<and> out ! 3 = no_autocorr"
    by auto
  from ljung_box_decision_rule [OF n10 r10]
  have second: "\<exists>out. check_autocorrelation ?L (replicate 10 [1]) ?e10 = Inr out \<and> out ! 3 = autocorr"
    by auto
  from first second show ?thesis by blast
qed

subsection \<open>The residuals of a least-squares fit with an intercept\<close>

lemma dot_list_update:
  "j < length row \<Longrightarrow> length b = length row \<Longrightarrow>
   dot row (b[j := b ! j + t]) = dot row b + t * row ! j"
proof (induction row arbitrary: b j)
  case Nil
  then show ?case by simp
next
  case (Cons a row)
  then obtain b0 bs where b: "b = b0 # bs" by (cases b) auto
  show ?case
  proof (cases j)
    case 0
    then show ?thesis by (simp add: b dot_def algebra_simps)
  next
    case (Suc i)
    with Cons.prems b have "i < length row" "length bs = length row" by simp_all
    from Cons.IH [OF this] show ?thesis
      by (simp add: b Suc dot_def)
  qed
qed

lemma residuals_shift:
  assumes "length y = length D"
      and "list_all (\<lambda>row. length row = length beta \<and> row ! j = c) D"
      and "j < length beta"
  shows "residuals D y (beta[j := beta ! j + t]) = map (\<lambda>r. r - t * c) (residuals D y beta)"
  using assms
proof (induction D arbitrary: y)
  case Nil
  then show ?case by (simp add: residuals_def predictions_def)
next
  case (Cons row D)
  then obtain y0 ys where y: "y = y0 # ys" by (cases y) auto
  from Cons.prems have row: "length row = length beta" "row ! j = c" by simp_all
  have jr: "j < length row" using row(1) Cons.prems(3) by simp
  have d: "dot row (beta[j := beta ! j + t]) = dot row beta + t * c"
    unfolding dot_list_update [OF jr row(1) [symmetric]] row(2) ..
  from Cons.prems y have "length ys = length D"
    "list_all (\<lambda>row. length row = length beta \<and> row ! j = c) D" by simp_all
  from Cons.IH [OF this Cons.prems(3)] show ?case
    using d by (simp add: y residuals_def predictions_def)
qed

lemma sum_squares_shift:
  "sum_list (map (\<lambda>r. r * r) (map (\<lambda>r. r - d) rs))
     = sum_list (map (\<lambda>r. r * r) rs) - 2 * d * sum_list rs + real (length rs) * d * (d::real)"
  by (induction rs) (simp_all add: algebra_simps)

lemma length_residuals: "length y = length D \<Longrightarrow> length (residuals D y beta) = length D"
  by (simp add: residuals_def predictions_def)

lemma constant_columnD:
  "constant_column D j \<Longrightarrow> \<exists>c. c \<noteq> 0 \<and> list_all (\<lambda>row. row ! j = c) D"
  by (cases D) (auto simp: constant_column_def)

text \<open>
  Moving the coefficient of the intercept column by \<open>t\<close> moves every residual by the same
  amount; a minimum of the sum of squares along that line forces the residuals to sum to
  zero.
\<close>

lemma least_squares_sum_residuals:
  assumes valid: "valid_design D y (length beta)"
      and n: "D \<noteq> []"
      and j: "j < length beta"
      and const: "constant_column D j"
      and ls: "least_squares D y beta"
  shows "sum_list (residuals D y beta) = 0"
proof -
  from constant_columnD [OF const] obtain c where c: "c \<noteq> 0" "list_all (\<lambda>row. row ! j = c) D"
    by blast
  from valid have len: "length y = length D" and rows: "list_all (\<lambda>row. length row = length beta) D"
    by (simp_all add: valid_design_def)
  from rows c(2) have rc: "list_all (\<lambda>row. length row = length beta \<and> row ! j = c) D"
    by (simp add: list_all_iff)
  define S where "S = sum_list (residuals D y beta)"
  define n where "n = real (length D)"
  have npos: "0 < n" using \<open>D \<noteq> []\<close> by (simp add: n_def)
  define t where "t = S / (n * c)"
  have tc: "t * c = S / n" using c(1) npos by (simp add: t_def)
  let ?b = "beta[j := beta ! j + t]"
  have "ssr D y beta \<le> ssr D y ?b"
    using ls by (simp add: least_squares_def)
  also have "ssr D y ?b = ssr D y beta - 2 * (t * c) * S + n * (t * c) * (t * c)"
    unfolding ssr_def residuals_shift [OF len rc j] sum_squares_shift S_def n_def
    by (simp add: length_residuals [OF len])
  also have "\<dots> = ssr D y beta - 2 * (S / n) * S + n * (S / n) * (S / n)"
    by (simp only: tc)
  also have "\<dots> = ssr D y beta - S * S / n"
    using npos by (simp add: field_simps)
  finally have "S * S / n \<le> 0" by simp
  with npos have "S * S \<le> 0" by (simp add: field_simps)
  then have "S = 0"
    by (metis mult_eq_0_iff not_square_less_zero order_le_less)
  then show ?thesis by (simp add: S_def)
qed

lemma least_squares_est3:
  "least_squares [[1, 0], [1, 1], [1, 2]] [0, 1, 0] [1 / 3, 0]"
  unfolding least_squares_def
proof (intro allI impI)
  fix b :: vec
  assume "length b = length [1 / 3, 0 :: real]"
  then obtain b0 b1 where b: "b = [b0, b1]"
    by (auto simp: length_Suc_conv)
  have l: "ssr [[1, 0], [1, 1], [1, 2]] [0, 1, 0] [1 / 3, 0] = 2 / 3"
    by (simp add: ssr_def residuals_def predictions_def dot_def)
  have r: "ssr [[1, 0], [1, 1], [1, 2]] [0, 1, 0] b
             = 2 / 3 + 3 * ((b0 + b1 - 1 / 3) * (b0 + b1 - 1 / 3)) + 2 * (b1 * b1)"
    by (simp add: b ssr_def residuals_def predictions_def dot_def algebra_simps)
  show "ssr [[1, 0], [1, 1], [1, 2]] [0, 1, 0] [1 / 3, 0] \<le> ssr [[1, 0], [1, 1], [1, 2]] [0, 1, 0] b"
    unfolding l r by simp
qed

text \<open>
  C4. For a valid design matrix and target with more rows than coefficients, and a fit of
  them whose design matrix has an intercept column, the cell of the residual mean computes
  exactly 0 (in exact arithmetic, floats read as reals) and prints it.
\<close>

theorem ols_intercept_mean_residual_zero:
  assumes fit: "fitted D y est"
      and valid: "valid_design D y (length (params est))"
      and nk: "length D > length (params est)"
      and j: "j < length (params est)"
      and const: "constant_column D j"
  shows "check_residual_mean L est = Inr (0, [''The mean of the residuals is '' @ format_4 L 0])"
proof -
  from nk have ne: "D \<noteq> []" by auto
  from fit have ls: "least_squares D y (params est)"
    and r: "resid est = residuals D y (params est)"
    by (simp_all add: fitted_def)
  have s: "sum_list (resid est) = 0"
    unfolding r by (rule least_squares_sum_residuals [OF valid ne j const ls])
  from valid have "length (resid est) = length D"
    unfolding r by (simp add: valid_design_def length_residuals)
  with ne have "length (resid est) \<noteq> 0" by simp
  then show ?thesis
    by (simp add: check_residual_mean_def mean_residuals_def s)
qed

theorem ols_intercept_mean_residual_zero_witness:
  "fitted (add_constant [[0], [1], [2]]) [0, 1, 0] est3
   \<and> valid_design (add_constant [[0], [1], [2]]) [0, 1, 0] (length (params est3))
   \<and> length (add_constant [[0], [1], [2]]) > length (params est3)
   \<and> constant_column (add_constant [[0], [1], [2]]) 0
   \<and> check_residual_mean (stub 1 1 []) est3 = Inr (0, [''The mean of the residuals is #''])"
proof -
  let ?D = "add_constant [[0], [1], [2]]"
  have D: "?D = [[1, 0], [1, 1], [1, 2]]" by (simp add: add_constant_def)
  have fit: "fitted ?D [0, 1, 0] est3"
    unfolding D fitted_def
    using least_squares_est3
    by (simp add: est3_def residuals_def predictions_def dot_def)
  have valid: "valid_design ?D [0, 1, 0] (length (params est3))"
    by (simp add: D valid_design_def est3_def)
  have nk: "length ?D > length (params est3)"
    by (simp add: D est3_def)
  have j: "0 < length (params est3)" by (simp add: est3_def)
  have const: "constant_column ?D 0"
    by (simp add: D constant_column_def)
  from ols_intercept_mean_residual_zero [OF fit valid nk j const, of "stub 1 1 []"]
  have "check_residual_mean (stub 1 1 []) est3 = Inr (0, [''The mean of the residuals is #''])"
    by (simp add: stub_def)
  with fit valid nk const show ?thesis by blast
qed

subsection \<open>The values of the loaded table\<close>

lemma traverse_Inr:
  "traverse f xs = Inr ys \<Longrightarrow> list_all2 (\<lambda>x y. f x = Inr y) xs ys"
proof (induction xs arbitrary: ys)
  case Nil
  then show ?case by simp
next
  case (Cons x xs)
  then show ?case
    by (auto split: sum.splits)
qed

lemma list_all2_filter:
  assumes "list_all2 R xs ys" and "\<And>x y. R x y \<Longrightarrow> P x = Q y"
  shows "list_all2 R (filter P xs) (filter Q ys)"
  using assms(1)
proof (induction rule: list_all2_induct)
  case Nil
  then show ?case by simp
next
  case (Cons x xs y ys)
  then show ?case using assms(2) [of x y] by simp
qed

lemma list_all2_all_iff:
  assumes "list_all2 (\<lambda>c v. g c = Inr v) row vs"
  shows "list_all Q vs \<longleftrightarrow> list_all (\<lambda>c. \<exists>v. g c = Inr v \<and> Q v) row"
  using assms by (induction rule: list_all2_induct) auto

lemma astype_float_row_coerced:
  "astype_float_row parse (label, map replace_cell row) = Inr lv \<Longrightarrow> coerced parse (label, row) lv"
  by (auto simp: astype_float_row_def coerced_def list_all2_map1 split: sum.splits dest!: traverse_Inr)

lemma coerced_labels:
  "list_all2 (coerced parse) xs ys \<Longrightarrow> map fst ys = map fst xs"
  by (induction rule: list_all2_induct) (simp_all add: coerced_def)

text \<open>
  On a sheet with the years in increasing order the loaded table holds the rows of the
  years 1969 to 2016, in the order of the sheet, every cell replaced and coerced.
\<close>

lemma load_data_rows:
  assumes "load_data parse sheet = Inr econ_df"
      and "sorted (map fst (rows sheet))"
  shows "list_all2 (coerced parse) (filter (\<lambda>(label, row). in_years label) (rows sheet)) (rows econ_df)"
proof -
  from assms(1) obtain rs sliced where
    t: "traverse (astype_float_row parse) (rows (replace sheet)) = Inr rs"
    and l: "loc \<lparr>columns = columns (replace sheet), rows = rs\<rparr> = Inr sliced"
    and e: "rows econ_df = rows sliced"
    by (auto simp: load_data_def astype_float_def rename_def split: sum.splits)
  have "list_all2 (\<lambda>x y. astype_float_row parse x = Inr y)
          (map (\<lambda>(label, row). (label, map replace_cell row)) (rows sheet)) rs"
    using traverse_Inr [OF t] by (simp add: replace_def)
  then have co: "list_all2 (coerced parse) (rows sheet) rs"
    by (auto simp: list_all2_map1 case_prod_beta
        intro: astype_float_row_coerced elim!: list_all2_mono)
  from coerced_labels [OF co] assms(2) have "sorted (map fst rs)" by simp
  with l have "rows sliced = filter (\<lambda>(label, row). in_years label) rs"
    by (auto simp: loc_def Let_def)
  with co show ?thesis
    unfolding e
    by (auto intro!: list_all2_filter simp: coerced_def)
qed

text \<open>
  On a decreasing index the slice is empty, whatever the cells; on an index in no order
  the cell raises.
\<close>

lemma load_data_decreasing:
  "load_data reads_nothing sheet_decreasing = Inr \<lparr>columns = [''gdp_growth''], rows = []\<rparr>"
  by (simp add: load_data_def astype_float_def astype_float_row_def astype_float_cell_def
      py_float_def replace_def replace_cell_def loc_def rename_def column_names_def
      sheet_decreasing_def Let_def)

lemma load_data_unsorted:
  "load_data reads_nothing sheet_unsorted = Inl KeyError"
  by (simp add: load_data_def astype_float_def astype_float_row_def astype_float_cell_def
      replace_def replace_cell_def loc_def sheet_unsorted_def Let_def)

lemma coerced_rows_all_iff:
  assumes "list_all2 (coerced parse) xs ys"
  shows "list_all (\<lambda>(label, vs). list_all Q vs) ys \<longleftrightarrow>
         list_all (\<lambda>(label, row).
            list_all (\<lambda>c. \<exists>v. astype_float_cell parse (replace_cell c) = Inr v \<and> Q v) row) xs"
  using assms
proof (induction rule: list_all2_induct)
  case Nil
  then show ?case by simp
next
  case (Cons x xs y ys)
  from Cons.hyps(1) have
    "list_all Q (snd y) \<longleftrightarrow>
     list_all (\<lambda>c. \<exists>v. astype_float_cell parse (replace_cell c) = Inr v \<and> Q v) (snd x)"
    unfolding coerced_def by (intro list_all2_all_iff) simp
  with Cons.IH show ?case by (simp add: case_prod_beta)
qed

lemma reads_finite_iff:
  "reads_finite parse c \<longleftrightarrow> (\<exists>v. astype_float_cell parse (replace_cell c) = Inr v \<and> is_finite v)"
  by (auto simp: reads_finite_def is_finite_def split: sum.splits fval.splits)

lemma sentinel_is_nan: "astype_float_cell parse (replace_cell (Text ''..'')) = Inr NaN"
  by (simp add: astype_float_cell_def replace_cell_def py_float_def)

lemma empty_is_nan: "astype_float_cell parse (replace_cell Empty) = Inr NaN"
  by (simp add: astype_float_cell_def replace_cell_def)

text \<open>
  C7, as amended. When the loading cell succeeds on a sheet whose year labels are in
  increasing order, every value of the loaded table is a finite float exactly when every
  cell of the sheet's rows for the years 1969 to 2016 is a number or a text that reads as a
  finite float, and then no value is missing; a sentinel \<^verbatim>\<open>..\<close> or an empty cell in such
  a row is a missing value of the loaded table.
\<close>

theorem load_data_finite_iff:
  assumes load: "load_data parse sheet = Inr econ_df"
      and ordered: "sorted (map fst (rows sheet))"
  shows "(all_finite econ_df \<longleftrightarrow>
            list_all (\<lambda>(label, row). in_years label \<longrightarrow> list_all (reads_finite parse) row) (rows sheet))
       \<and> (all_finite econ_df \<longrightarrow> no_missing econ_df)
       \<and> (list_ex (\<lambda>(label, row). in_years label \<and> (Text ''..'' \<in> set row \<or> Empty \<in> set row))
             (rows sheet) \<longrightarrow> \<not> no_missing econ_df)"
proof -
  note rows = load_data_rows [OF load ordered]
  have fin: "all_finite econ_df \<longleftrightarrow>
      list_all (\<lambda>(label, row). in_years label \<longrightarrow> list_all (reads_finite parse) row) (rows sheet)"
    unfolding all_finite_def coerced_rows_all_iff [OF rows]
    by (auto simp: list_all_iff reads_finite_iff)
  have nm: "no_missing econ_df \<longleftrightarrow>
      list_all (\<lambda>(label, row). in_years label \<longrightarrow>
         list_all (\<lambda>c. \<exists>v. astype_float_cell parse (replace_cell c) = Inr v \<and> \<not> isnull v) row)
        (rows sheet)"
    unfolding no_missing_def coerced_rows_all_iff [OF rows]
    by (auto simp: list_all_iff)
  have imp: "all_finite econ_df \<longrightarrow> no_missing econ_df"
    by (auto simp: all_finite_def no_missing_def list_all_iff is_finite_def isnull_def
        split: fval.splits)
  have sent: "list_ex (\<lambda>(label, row). in_years label \<and> (Text ''..'' \<in> set row \<or> Empty \<in> set row))
             (rows sheet) \<longrightarrow> \<not> no_missing econ_df"
    unfolding nm
    using sentinel_is_nan [of parse] empty_is_nan [of parse]
    by (fastforce simp: list_all_iff list_ex_iff isnull_def)
  from fin imp sent show ?thesis by blast
qed

theorem load_data_finite_iff_witness:
  "sorted (map fst (rows sheet4))
   \<and> load_data reads_some sheet4
     = Inr \<lparr>columns = [''gdp_growth'', ''pop_growth''],
            rows = [(1969, [Finite 14.5, Finite 2.5]), (2016, [Finite 2.5, Finite 0.5])]\<rparr>
   \<and> all_finite \<lparr>columns = [''gdp_growth'', ''pop_growth''],
            rows = [(1969, [Finite 14.5, Finite 2.5]), (2016, [Finite 2.5, Finite 0.5])]\<rparr>
   \<and> no_missing \<lparr>columns = [''gdp_growth'', ''pop_growth''],
            rows = [(1969, [Finite 14.5, Finite 2.5]), (2016, [Finite 2.5, Finite 0.5])]\<rparr>
   \<and> load_data reads_some \<lparr>columns = [''Year total''], rows = [(2000, [Number 1, Empty])]\<rparr>
     = Inr \<lparr>columns = [''Year total''], rows = [(2000, [Finite 1, NaN])]\<rparr>
   \<and> \<not> no_missing \<lparr>columns = [''Year total''], rows = [(2000, [Finite 1, NaN])]\<rparr>"
proof -
  let ?df = "\<lparr>columns = [''gdp_growth'', ''pop_growth''],
            rows = [(1969, [Finite 14.5, Finite 2.5]), (2016, [Finite 2.5, Finite 0.5])]\<rparr>"
  let ?sheet' = "\<lparr>columns = [''Year total''], rows = [(2000, [Number 1, Empty])]\<rparr>"
  let ?df' = "\<lparr>columns = [''Year total''], rows = [(2000, [Finite 1, NaN])]\<rparr>"
  have ordered: "sorted (map fst (rows sheet4))"
    by (simp add: sheet4_def)
  have load: "load_data reads_some sheet4 = Inr ?df"
    by (simp add: load_data_def astype_float_def astype_float_row_def astype_float_cell_def
      py_float_def replace_def replace_cell_def loc_def in_years_def rename_def column_names_def
      sheet4_def reads_some_def Let_def)
  have cells: "list_all (\<lambda>(label, row). in_years label \<longrightarrow> list_all (reads_finite reads_some) row)
                 (rows sheet4)"
    by (simp add: sheet4_def in_years_def reads_finite_def astype_float_cell_def replace_cell_def
        py_float_def reads_some_def)
  from load_data_finite_iff [OF load ordered] cells
  have ok: "all_finite ?df \<and> no_missing ?df" by blast
  have ordered': "sorted (map fst (rows ?sheet'))" by simp
  have load': "load_data reads_some ?sheet' = Inr ?df'"
    by (simp add: load_data_def astype_float_def astype_float_row_def astype_float_cell_def
      replace_def replace_cell_def loc_def in_years_def rename_def column_names_def Let_def)
  have cell': "list_ex (\<lambda>(label, row). in_years label \<and> (Text ''..'' \<in> set row \<or> Empty \<in> set row))
                 (rows ?sheet')"
    by (simp add: in_years_def)
  from load_data_finite_iff [OF load' ordered'] cell'
  have bad: "\<not> no_missing ?df'" by blast
  from ordered load ok load' bad show ?thesis by blast
qed

theorem load_data_counterexample:
  "load_data reads_nothing
      \<lparr>columns = [''GDP growth (annual %)''], rows = [(1970, [Text ''..''])]\<rparr>
     = Inr \<lparr>columns = [''gdp_growth''], rows = [(1970, [NaN])]\<rparr>
   \<and> \<not> no_missing \<lparr>columns = [''gdp_growth''], rows = [(1970, [NaN])]\<rparr>
   \<and> \<not> all_finite \<lparr>columns = [''gdp_growth''], rows = [(1970, [NaN])]\<rparr>"
  by (simp add: load_data_def astype_float_def astype_float_row_def astype_float_cell_def
      py_float_def replace_def replace_cell_def loc_def in_years_def rename_def column_names_def
      no_missing_def all_finite_def isnull_def is_finite_def Let_def)

subsection \<open>Vectors of unequal length\<close>

text \<open>
  C9. For true and predicted target vectors of unequal length, each of the three metric
  functions fails with \<open>ShapeError\<close>, and so do the cell of the error measures, which
  would compute the root mean squared error from the mean squared error, and the cell of
  R-squared: no metric value is produced.
\<close>

theorem evaluator_shape_error:
  assumes "length y_true \<noteq> length y_pred"
  shows "mean_absolute_error y_true y_pred = Inl ShapeError
       \<and> mean_squared_error y_true y_pred = Inl ShapeError
       \<and> r2_score y_true y_pred = Inl ShapeError
       \<and> measures_of_error L y_true y_pred = Inl ShapeError
       \<and> r_squared L y_true y_pred = Inl ShapeError"
  using assms
  by (simp add: mean_absolute_error_def mean_squared_error_def r2_score_def
      measures_of_error_def r_squared_def)

theorem evaluator_shape_error_witness:
  "length [1, 2, 3, 4, 5 :: real] \<noteq> length [1, 2, 3, 4 :: real]
   \<and> mean_absolute_error [1, 2, 3, 4, 5] [1, 2, 3, 4] = Inl ShapeError
   \<and> mean_squared_error [1, 2, 3, 4, 5] [1, 2, 3, 4] = Inl ShapeError
   \<and> r2_score [1, 2, 3, 4, 5] [1, 2, 3, 4] = Inl ShapeError
   \<and> measures_of_error (stub 1 1 []) [1, 2, 3, 4, 5] [1, 2, 3, 4] = Inl ShapeError
   \<and> r_squared (stub 1 1 []) [1, 2, 3, 4, 5] [1, 2, 3, 4] = Inl ShapeError"
proof -
  have h: "length [1, 2, 3, 4, 5 :: real] \<noteq> length [1, 2, 3, 4 :: real]" by simp
  from evaluator_shape_error [OF h, of "stub 1 1 []"] h show ?thesis by blast
qed

subsection \<open>Which fit feeds which cell\<close>

lemma length_rows_keep_columns:
  "length (rows (keep_columns P df)) = length (rows df)"
  by (simp add: keep_columns_def)

lemma length_values_keep_columns:
  "length (values_of (keep_columns P df)) = length (rows df)"
  by (simp add: values_of_def keep_columns_def)

lemma build_model_Inr:
  assumes "build_model L names econ_df = Inr (X, Y, X_train, X_test, y_train, y_test, m)"
  shows "length X = length (rows econ_df)
       \<and> train_test_split L X Y 0.20 (Some 1) = Inr (X_train, X_test, y_train, y_test)
       \<and> LinearRegression_fit L X_train y_train = Inr m"
  using assms
  by (auto simp: build_model_def drop_columns_def getitem_def Let_def length_values_keep_columns
      length_rows_keep_columns split: sum.splits if_splits)

lemma statsmodels_fit_Inr:
  assumes "statsmodels_fit L X Y = Inr (X2, est)"
  shows "X2 = add_constant X \<and> OLS_fit L Y (add_constant X) Nonrobust = Inr est"
  using assms by (auto simp: statsmodels_fit_def Let_def split: sum.splits)

lemma notebook_Inr:
  assumes "notebook L econ_df = Inr g"
  shows "\<exists>out_het out_acorr out_mean out_err out_r2.
           build_model L [''birth_rate'', ''final_consum_growth'', ''gross_capital_formation'']
               econ_df
             = Inr (nb_X g, nb_Y g, nb_X_train g, nb_X_test g,
                    nb_y_train g, nb_y_test g, nb_regression_model g)
         \<and> predict L (nb_regression_model g) (nb_X_test g) = Inr (nb_y_predict g)
         \<and> statsmodels_fit L (nb_X g) (nb_Y g) = Inr (nb_X2 g, nb_est g)
         \<and> check_heteroscedasticity L (nb_est g) = Inr out_het
         \<and> check_autocorrelation L (nb_X g) (nb_est g) = Inr out_acorr
         \<and> check_residual_mean L (nb_est g) = Inr (nb_mean_residuals g, out_mean)
         \<and> measures_of_error L (nb_y_test g) (nb_y_predict g)
             = Inr ((nb_model_mse g, nb_model_mae g, nb_model_rmse g), out_err)
         \<and> r_squared L (nb_y_test g) (nb_y_predict g) = Inr (nb_model_r2 g, out_r2)
         \<and> nb_printed g = out_het @ out_acorr @ out_mean @ out_err @ out_r2"
  using assms
  by (auto simp: notebook_def split: sum.splits prod.splits)

lemma check_heteroscedasticity_Inr:
  assumes "check_heteroscedasticity L est = Inr out"
  shows "\<exists>w b. het_white L (resid est) (exog est) = Inr w
             \<and> het_breuschpagan L (resid est) (exog est) = Inr b"
  using assms
  by (auto simp: check_heteroscedasticity_def Let_def split: sum.splits prod.splits)

lemma check_autocorrelation_Inr:
  assumes "check_autocorrelation L X est = Inr out"
  shows "\<exists>q. acorr_ljungbox L (resid est) (min 10 (length X div 5)) = Inr q"
  using assms
  by (auto simp: check_autocorrelation_def Let_def split: sum.splits prod.splits)

lemma check_residual_mean_Inr:
  assumes "check_residual_mean L est = Inr (m, out)"
  shows "mean_residuals (resid est) = Inr m"
  using assms
  by (auto simp: check_residual_mean_def split: sum.splits)

lemma measures_of_error_Inr:
  assumes "measures_of_error L y_test y_predict = Inr ((mse, mae, rmse), out)"
  shows "mean_squared_error y_test y_predict = Inr mse
       \<and> mean_absolute_error y_test y_predict = Inr mae
       \<and> py_sqrt mse = Inr rmse"
  using assms
  by (auto simp: measures_of_error_def split: sum.splits)

lemma r_squared_Inr:
  assumes "r_squared L y_test y_predict = Inr (r2, out)"
  shows "r2_score y_test y_predict = Inr r2"
  using assms
  by (auto simp: r_squared_def split: sum.splits)

text \<open>
  C10. In every run of the notebook that reaches the cell of R-squared: \<open>X\<close> has all the
  rows of the table; \<open>est\<close> is the statsmodels fit of the whole of \<open>Y\<close> on the whole of
  \<open>X\<close> with a constant; White's test, the Breusch-Pagan test, the Ljung-Box test and the
  residual mean are all computed from the residuals of \<open>est\<close>; the regression model is
  fitted on the training part of the split with test size 0.20 and seed 1, and the mean
  squared error, the mean absolute error, its root and R-squared compare the test part of
  the target with that model's predictions on the test part of the features. When the
  split divides the rows into a training and a non-empty test part, the training features
  are not the full features: the two models are fits of different data.
\<close>

theorem notebook_two_fits:
  assumes run: "notebook L econ_df = Inr g"
  shows "length (nb_X g) = length (rows econ_df)
       \<and> OLS_fit L (nb_Y g) (add_constant (nb_X g)) Nonrobust = Inr (nb_est g)
       \<and> (\<exists>w. het_white L (resid (nb_est g)) (exog (nb_est g)) = Inr w)
       \<and> (\<exists>b. het_breuschpagan L (resid (nb_est g)) (exog (nb_est g)) = Inr b)
       \<and> (\<exists>q. acorr_ljungbox L (resid (nb_est g)) (min 10 (length (nb_X g) div 5)) = Inr q)
       \<and> mean_residuals (resid (nb_est g)) = Inr (nb_mean_residuals g)
       \<and> train_test_split L (nb_X g) (nb_Y g) 0.20 (Some 1)
           = Inr (nb_X_train g, nb_X_test g, nb_y_train g, nb_y_test g)
       \<and> LinearRegression_fit L (nb_X_train g) (nb_y_train g) = Inr (nb_regression_model g)
       \<and> predict L (nb_regression_model g) (nb_X_test g) = Inr (nb_y_predict g)
       \<and> mean_squared_error (nb_y_test g) (nb_y_predict g) = Inr (nb_model_mse g)
       \<and> mean_absolute_error (nb_y_test g) (nb_y_predict g) = Inr (nb_model_mae g)
       \<and> py_sqrt (nb_model_mse g) = Inr (nb_model_rmse g)
       \<and> r2_score (nb_y_test g) (nb_y_predict g) = Inr (nb_model_r2 g)
       \<and> (\<exists>out_het out_acorr out_mean out_err out_r2.
             check_heteroscedasticity L (nb_est g) = Inr out_het
           \<and> check_autocorrelation L (nb_X g) (nb_est g) = Inr out_acorr
           \<and> check_residual_mean L (nb_est g) = Inr (nb_mean_residuals g, out_mean)
           \<and> measures_of_error L (nb_y_test g) (nb_y_predict g)
               = Inr ((nb_model_mse g, nb_model_mae g, nb_model_rmse g), out_err)
           \<and> r_squared L (nb_y_test g) (nb_y_predict g) = Inr (nb_model_r2 g, out_r2)
           \<and> nb_printed g = out_het @ out_acorr @ out_mean @ out_err @ out_r2)
       \<and> (length (nb_X_train g) + length (nb_X_test g) = length (nb_X g) \<and> nb_X_test g \<noteq> []
              \<longrightarrow> nb_X_train g \<noteq> nb_X g)"
proof -
  from notebook_Inr [OF run] obtain out_het out_acorr out_mean out_err out_r2 where
    b: "build_model L [''birth_rate'', ''final_consum_growth'', ''gross_capital_formation'']
               econ_df
             = Inr (nb_X g, nb_Y g, nb_X_train g, nb_X_test g,
                    nb_y_train g, nb_y_test g, nb_regression_model g)"
    and p: "predict L (nb_regression_model g) (nb_X_test g) = Inr (nb_y_predict g)"
    and s: "statsmodels_fit L (nb_X g) (nb_Y g) = Inr (nb_X2 g, nb_est g)"
    and h: "check_heteroscedasticity L (nb_est g) = Inr out_het"
    and a: "check_autocorrelation L (nb_X g) (nb_est g) = Inr out_acorr"
    and r: "check_residual_mean L (nb_est g) = Inr (nb_mean_residuals g, out_mean)"
    and m: "measures_of_error L (nb_y_test g) (nb_y_predict g)
             = Inr ((nb_model_mse g, nb_model_mae g, nb_model_rmse g), out_err)"
    and q: "r_squared L (nb_y_test g) (nb_y_predict g) = Inr (nb_model_r2 g, out_r2)"
    and o: "nb_printed g = out_het @ out_acorr @ out_mean @ out_err @ out_r2"
    by blast
  have cells: "\<exists>out_het out_acorr out_mean out_err out_r2.
             check_heteroscedasticity L (nb_est g) = Inr out_het
           \<and> check_autocorrelation L (nb_X g) (nb_est g) = Inr out_acorr
           \<and> check_residual_mean L (nb_est g) = Inr (nb_mean_residuals g, out_mean)
           \<and> measures_of_error L (nb_y_test g) (nb_y_predict g)
               = Inr ((nb_model_mse g, nb_model_mae g, nb_model_rmse g), out_err)
           \<and> r_squared L (nb_y_test g) (nb_y_predict g) = Inr (nb_model_r2 g, out_r2)
           \<and> nb_printed g = out_het @ out_acorr @ out_mean @ out_err @ out_r2"
    using h a r m q o by blast
  have neq: "length (nb_X_train g) + length (nb_X_test g) = length (nb_X g) \<and> nb_X_test g \<noteq> []
              \<longrightarrow> nb_X_train g \<noteq> nb_X g"
    by auto
  note facts = build_model_Inr [OF b] statsmodels_fit_Inr [OF s] p
    check_heteroscedasticity_Inr [OF h] check_autocorrelation_Inr [OF a]
    check_residual_mean_Inr [OF r] measures_of_error_Inr [OF m] r_squared_Inr [OF q]
  show ?thesis
    using facts cells neq by (intro conjI) blast+
qed

theorem notebook_two_fits_witness:
  "\<exists>g. notebook (stub 0.05 0.06 [0.5, 0.04]) korea5 = Inr g
       \<and> length (nb_X g) = 5
       \<and> OLS_fit (stub 0.05 0.06 [0.5, 0.04]) (nb_Y g) (add_constant (nb_X g)) Nonrobust
           = Inr (nb_est g)
       \<and> length (nb_X_train g) = 3 \<and> length (nb_X_test g) = 2
       \<and> nb_X_train g \<noteq> nb_X g"
proof -
  let ?L = "stub 0.05 0.06 [0.5, 0.04]"
  have "\<exists>g. notebook ?L korea5 = Inr g"
    by (simp add: notebook_def build_model_def drop_columns_def getitem_def keep_columns_def
      values_of_def korea5_def stub_def statsmodels_fit_def add_constant_def
      check_heteroscedasticity_def robust_fit_def check_autocorrelation_def py_min_def
      check_residual_mean_def mean_residuals_def measures_of_error_def mean_squared_error_def
      mean_absolute_error_def py_sqrt_def r_squared_def r2_score_def Let_def)
  then obtain g where run: "notebook ?L korea5 = Inr g" ..
  from notebook_two_fits [OF run] have
    len: "length (nb_X g) = length (rows korea5)"
    and fit: "OLS_fit ?L (nb_Y g) (add_constant (nb_X g)) Nonrobust = Inr (nb_est g)"
    and split: "train_test_split ?L (nb_X g) (nb_Y g) 0.20 (Some 1)
             = Inr (nb_X_train g, nb_X_test g, nb_y_train g, nb_y_test g)"
    and neq: "length (nb_X_train g) + length (nb_X_test g) = length (nb_X g) \<and> nb_X_test g \<noteq> []
              \<longrightarrow> nb_X_train g \<noteq> nb_X g"
    by blast+
  from len have n: "length (nb_X g) = 5" by (simp add: korea5_def)
  from split have parts: "nb_X_train g = List.drop 2 (nb_X g)" "nb_X_test g = take 2 (nb_X g)"
    by (simp_all add: stub_def)
  from parts n have l: "length (nb_X_train g) = 3" "length (nb_X_test g) = 2" by simp_all
  from l n have "nb_X_test g \<noteq> []" by auto
  with neq l n have "nb_X_train g \<noteq> nb_X g" by simp
  with run n fit l show ?thesis by blast
qed

subsection \<open>Two fits of the same data, two runs of the notebook\<close>

text \<open>
  The sum of squares at the midpoint of two coefficient vectors is the mean of their sums
  less a quarter of the squared distance of their predictions. Two minimizers therefore
  predict the same, and on a design matrix of full column rank they are equal.
\<close>

lemma dot_midpoint:
  "length a = length row \<Longrightarrow> length b = length row \<Longrightarrow>
   dot row (map2 (\<lambda>x y. (x + y) / 2) a b) = (dot row a + dot row b) / 2"
proof (induction row arbitrary: a b)
  case Nil
  then show ?case by (simp add: dot_def)
next
  case (Cons r row)
  then obtain a0 as b0 bs where ab: "a = a0 # as" "b = b0 # bs"
    by (cases a; cases b) auto
  with Cons.prems have "length as = length row" "length bs = length row" by simp_all
  from Cons.IH [OF this] show ?case
    by (simp add: ab dot_def field_simps)
qed

lemma dot_diff:
  "length a = length row \<Longrightarrow> length b = length row \<Longrightarrow>
   dot row (map2 (-) a b) = dot row a - dot row b"
proof (induction row arbitrary: a b)
  case Nil
  then show ?case by (simp add: dot_def)
next
  case (Cons r row)
  then obtain a0 as b0 bs where ab: "a = a0 # as" "b = b0 # bs"
    by (cases a; cases b) auto
  with Cons.prems have "length as = length row" "length bs = length row" by simp_all
  from Cons.IH [OF this] show ?case
    by (simp add: ab dot_def algebra_simps)
qed

lemma ssr_Cons:
  "ssr (row # D) (y0 # ys) b = (y0 - dot row b) * (y0 - dot row b) + ssr D ys b"
  by (simp add: ssr_def residuals_def predictions_def)

lemma ssr_midpoint:
  assumes "length y = length D"
      and "list_all (\<lambda>row. length row = k) D"
      and "length a = k" "length b = k"
  shows "ssr D y (map2 (\<lambda>x y. (x + y) / 2) a b)
           = (ssr D y a + ssr D y b) / 2
             - sum_list (map (\<lambda>row. (dot row a - dot row b) * (dot row a - dot row b)) D) / 4"
  using assms(1,2)
proof (induction D arbitrary: y)
  case Nil
  then show ?case by (simp add: ssr_def residuals_def predictions_def)
next
  case (Cons row D)
  then obtain y0 ys where y: "y = y0 # ys" by (cases y) auto
  from Cons.prems have row: "length row = k" by simp
  have m: "dot row (map2 (\<lambda>x y. (x + y) / 2) a b) = (dot row a + dot row b) / 2"
    by (rule dot_midpoint) (simp_all add: row assms(3,4))
  from Cons.prems y have "length ys = length D" "list_all (\<lambda>row. length row = k) D" by simp_all
  from Cons.IH [OF this] show ?case
    unfolding y ssr_Cons m by (simp add: field_simps)
qed

lemma sum_squares_zero:
  assumes "sum_list (map (\<lambda>x. f x * f x) xs) \<le> (0::real)"
  shows "\<forall>x\<in>set xs. f x = 0"
  using assms
proof (induction xs)
  case Nil
  then show ?case by simp
next
  case (Cons x xs)
  have nn: "0 \<le> sum_list (map (\<lambda>x. f x * f x) xs)"
    by (rule sum_list_nonneg) auto
  have sq: "0 \<le> f x * f x" by simp
  from Cons.prems have "f x * f x + sum_list (map (\<lambda>x. f x * f x) xs) \<le> 0" by simp
  with nn sq have "f x * f x = 0" "sum_list (map (\<lambda>x. f x * f x) xs) \<le> 0" by linarith+
  with Cons.IH show ?case by simp
qed

lemma least_squares_same_predictions:
  assumes valid: "valid_design D y k"
      and la: "length a = k" and lb: "length b = k"
      and a: "least_squares D y a" and b: "least_squares D y b"
  shows "\<forall>row\<in>set D. dot row a = dot row b"
proof -
  from valid have len: "length y = length D" and rows: "list_all (\<lambda>row. length row = k) D"
    by (simp_all add: valid_design_def)
  let ?m = "map2 (\<lambda>x y. (x + y) / 2) a b"
  define Q where "Q = sum_list (map (\<lambda>row. (dot row a - dot row b) * (dot row a - dot row b)) D)"
  have lm: "length ?m = k" by (simp add: la lb)
  have mid: "ssr D y ?m = (ssr D y a + ssr D y b) / 2 - Q / 4"
    unfolding Q_def by (rule ssr_midpoint [OF len rows la lb])
  have "ssr D y a \<le> ssr D y ?m" using a lm la by (simp add: least_squares_def)
  moreover have "ssr D y b \<le> ssr D y ?m" using b lm lb by (simp add: least_squares_def)
  ultimately have "Q \<le> 0" unfolding mid by argo
  then have "sum_list (map (\<lambda>row. (dot row a - dot row b) * (dot row a - dot row b)) D) \<le> 0"
    by (simp add: Q_def)
  from sum_squares_zero [OF this] show ?thesis by simp
qed

lemma map2_diff_zero:
  "length a = length b \<Longrightarrow> map2 (-) a b = replicate (length b) (0::real) \<Longrightarrow> a = b"
proof (induction a arbitrary: b)
  case Nil
  then show ?case by simp
next
  case (Cons x a)
  then obtain y bs where b: "b = y # bs" by (cases b) auto
  with Cons show ?case by simp
qed

lemma least_squares_unique:
  assumes valid: "valid_design D y k"
      and la: "length a = k" and lb: "length b = k"
      and a: "least_squares D y a" and b: "least_squares D y b"
      and rank: "full_column_rank D k"
  shows "a = b"
proof -
  from valid have rows: "list_all (\<lambda>row. length row = k) D"
    by (simp add: valid_design_def)
  have same: "\<forall>row\<in>set D. dot row a = dot row b"
    by (rule least_squares_same_predictions [OF valid la lb a b])
  have "list_all (\<lambda>row. dot row (map2 (-) a b) = 0) D"
    unfolding list_all_iff
  proof
    fix row assume r: "row \<in> set D"
    with rows have "length row = k" by (simp add: list_all_iff)
    then have "dot row (map2 (-) a b) = dot row a - dot row b"
      by (intro dot_diff) (simp_all add: la lb)
    with same r show "dot row (map2 (-) a b) = 0" by simp
  qed
  moreover have "length (map2 (-) a b) = k" by (simp add: la lb)
  ultimately have "map2 (-) a b = replicate k 0"
    using rank by (simp add: full_column_rank_def)
  then show ?thesis
    using map2_diff_zero [of a b] la lb by simp
qed

lemma full_column_rank_est3: "full_column_rank [[1, 0], [1, 1], [1, 2]] 2"
  unfolding full_column_rank_def
proof (intro allI impI)
  fix v :: vec
  assume "length v = 2" and z: "list_all (\<lambda>row. dot row v = 0) [[1, 0], [1, 1], [1, 2]]"
  then obtain v0 v1 where v: "v = [v0, v1]"
    by (auto simp: length_Suc_conv numeral_2_eq_2)
  from z show "v = replicate 2 0"
    by (simp add: v dot_def numeral_2_eq_2)
qed

text \<open>
  A library enters a cell through the functions the cell calls; the split enters with the
  seed 1.
\<close>

lemma agree_fields:
  assumes "agree_when_seeded L L'"
  shows "train_test_split L X Y test_size (Some seed) = train_test_split L' X Y test_size (Some seed)"
    and "LinearRegression_fit L = LinearRegression_fit L'"
    and "predict L = predict L'"
    and "OLS_fit L = OLS_fit L'"
    and "het_white L = het_white L'"
    and "het_breuschpagan L = het_breuschpagan L'"
    and "acorr_ljungbox L = acorr_ljungbox L'"
    and "str L = str L'"
    and "str_int L = str_int L'"
    and "format_4 L = format_4 L'"
    and "format_3 L = format_3 L'"
    and "format_2 L = format_2 L'"
  using assms by (simp_all add: agree_when_seeded_def)

lemma agree_build_model:
  assumes "agree_when_seeded L L'"
  shows "build_model L names econ_df = build_model L' names econ_df"
  unfolding build_model_def agree_fields [OF assms] ..

lemma agree_cells:
  assumes "agree_when_seeded L L'"
  shows "statsmodels_fit L = statsmodels_fit L'"
    and "robust_fit L = robust_fit L'"
    and "check_heteroscedasticity L = check_heteroscedasticity L'"
    and "check_autocorrelation L = check_autocorrelation L'"
    and "check_residual_mean L = check_residual_mean L'"
    and "measures_of_error L = measures_of_error L'"
    and "r_squared L = r_squared L'"
  unfolding fun_eq_iff statsmodels_fit_def robust_fit_def
      check_heteroscedasticity_def white_report_def breuschpagan_report_def
      check_autocorrelation_def check_residual_mean_def measures_of_error_def r_squared_def
      agree_fields [OF assms]
  by simp_all

lemma agree_notebook:
  assumes "agree_when_seeded L L'"
  shows "notebook L econ_df = notebook L' econ_df"
    and "remove_insignificant L econ_df = remove_insignificant L' econ_df"
proof -
  have p: "predict L = predict L'" using assms by (simp add: agree_when_seeded_def)
  show "notebook L econ_df = notebook L' econ_df"
    unfolding notebook_def agree_build_model [OF assms] agree_cells [OF assms] p ..
  show "remove_insignificant L econ_df = remove_insignificant L' econ_df"
    unfolding remove_insignificant_def agree_build_model [OF assms] agree_cells [OF assms] ..
qed

text \<open>
  C6. Two fits of the same well-conditioned design matrix and target, with more rows than
  coefficients, have identical coefficients and residuals: the result of the fit is
  determined by its input. The split is called with an explicit seed, in the first pass
  and in the second: two runs whose libraries return the same from every function, the
  seeded split among them, and may differ in the unseeded split only, bind the same
  variables and print the same lines.
\<close>

theorem refit_and_seeded_split_deterministic:
  assumes valid: "valid_design D y k"
      and nk: "length D > k"
      and rank: "full_column_rank D k"
      and e1: "fitted D y est" "length (params est) = k"
      and e2: "fitted D y est'" "length (params est') = k"
      and runs: "agree_when_seeded L L'"
  shows "params est = params est' \<and> resid est = resid est'
       \<and> notebook L econ_df = notebook L' econ_df
       \<and> remove_insignificant L econ_df = remove_insignificant L' econ_df"
proof -
  from e1(1) e2(1) have ls: "least_squares D y (params est)" "least_squares D y (params est')"
    and r: "resid est = residuals D y (params est)" "resid est' = residuals D y (params est')"
    by (simp_all add: fitted_def)
  have p: "params est = params est'"
    by (rule least_squares_unique [OF valid e1(2) e2(2) ls rank])
  with r have "resid est = resid est'" by simp
  with p agree_notebook [OF runs] show ?thesis by simp
qed

theorem refit_and_seeded_split_deterministic_witness:
  "valid_design [[1, 0], [1, 1], [1, 2]] [0, 1, 0] 2
   \<and> full_column_rank [[1, 0], [1, 1], [1, 2]] 2
   \<and> fitted [[1, 0], [1, 1], [1, 2]] [0, 1, 0] est3
   \<and> agree_when_seeded (stub 0.05 0.06 [0.5, 0.04]) (stub' 0.05 0.06 [0.5, 0.04])
   \<and> train_test_split (stub 0.05 0.06 [0.5, 0.04]) [[1], [2], [3]] [1, 2, 3] 0.20 None
       \<noteq> train_test_split (stub' 0.05 0.06 [0.5, 0.04]) [[1], [2], [3]] [1, 2, 3] 0.20 None
   \<and> notebook (stub 0.05 0.06 [0.5, 0.04]) korea5 = notebook (stub' 0.05 0.06 [0.5, 0.04]) korea5
   \<and> remove_insignificant (stub 0.05 0.06 [0.5, 0.04]) korea5
       = remove_insignificant (stub' 0.05 0.06 [0.5, 0.04]) korea5"
proof -
  let ?D = "[[1, 0], [1, 1], [1, 2 :: real]]"
  let ?L = "stub 0.05 0.06 [0.5, 0.04]"
  let ?L' = "stub' 0.05 0.06 [0.5, 0.04]"
  have valid: "valid_design ?D [0, 1, 0] 2"
    by (simp add: valid_design_def)
  have nk: "length ?D > 2" by simp
  have fit: "fitted ?D [0, 1, 0] est3"
    unfolding fitted_def
    using least_squares_est3
    by (simp add: est3_def residuals_def predictions_def dot_def)
  have k: "length (params est3) = 2" by (simp add: est3_def)
  have runs: "agree_when_seeded ?L ?L'"
    by (simp add: agree_when_seeded_def stub_def stub'_def)
  have differ: "train_test_split ?L [[1], [2], [3]] [1, 2, 3] 0.20 None
       \<noteq> train_test_split ?L' [[1], [2], [3]] [1, 2, 3] 0.20 None"
    by (simp add: stub_def stub'_def)
  from refit_and_seeded_split_deterministic
         [OF valid nk full_column_rank_est3 fit k fit k runs, of korea5]
  have "notebook ?L korea5 = notebook ?L' korea5
      \<and> remove_insignificant ?L korea5 = remove_insignificant ?L' korea5"
    by simp
  with valid full_column_rank_est3 fit runs differ show ?thesis by blast
qed

end
